theory Spec2Isabelle
  imports Complex_Main "HOL-Library.Sublist" "HOL-Library.AList"
begin

section \<open>Data model\<close>

text \<open>
  The service of \<^verbatim>\<open>src/index.ts\<close> reads two relations, \<^verbatim>\<open>images\<close> and
  \<^verbatim>\<open>attributions\<close>. An instant (\<^verbatim>\<open>taken_on\<close>, \<^verbatim>\<open>stored_on\<close>, the value of
  \<^verbatim>\<open>new Date()\<close>) is the number of milliseconds since the epoch, the quantity
  \<^verbatim>\<open>getTime()\<close> returns and the store compares; the ISO text the handler sends is one
  rendering of it. A JavaScript string is a \<open>string\<close> whose characters are code units
  below 256. JavaScript numbers that hold integers are \<open>int\<close>; values beyond
  \<open>2 ^ 53\<close>, where a double rounds, are outside the model.
\<close>

type_synonym timestamp = int

record filters =
  timeRange :: string
  species :: "string option"

record pagination =
  page :: int
  limit :: int
  total :: int
  totalPages :: int

text \<open>
  The value \<^verbatim>\<open>count\<close> of an entry of the \<^verbatim>\<open>/species\<close> answer. It is declared a number.
  The reducer can also store a string there: \<open>FunctionText m k\<close> is the source text of the
  function \<^verbatim>\<open>Object.prototype[m]\<close> followed by \<open>k\<close> characters \<^verbatim>\<open>1\<close>. The source text
  of a built-in function is implementation-defined up to white space and is not spelled
  out; it starts with \<^verbatim>\<open>function\<close>, so as a number such a string is \<^verbatim>\<open>NaN\<close>.
\<close>

datatype js_count = Number int | FunctionText string nat

record species_count =
  species :: string
  count :: js_count

text \<open>
  \<^verbatim>\<open>interface Attribution\<close>. The column \<^verbatim>\<open>species\<close> is declared a string, and the
  handlers test it for falsiness before use, so a missing label is \<open>None\<close>.
\<close>

record attribution =
  image_id :: string
  model_version :: string
  species :: "string option"
  confidence :: rat
  extra :: string

text \<open>\<^verbatim>\<open>interface Image\<close>.\<close>

record image =
  id_img :: string
  taken_on :: timestamp
  stored_on :: timestamp
  file_name :: string
  local_file_name :: string
  image_size :: int
  image_url :: string
  download_url :: string
  enhanced_image_url :: "string option"
  camera_id :: string
  camera_name :: string
  modem_meid :: string
  latitude :: rat
  longitude :: rat
  is_video :: bool
  video_url :: "string option"
  user_id :: string
  is_favorite :: bool
  temperature :: "rat option"
  moon_phase :: "string option"
  tags :: "string list option"

text \<open>\<^verbatim>\<open>interface ImageWithAttributions extends Image\<close>.\<close>

record image_with_attributions = image +
  attributions :: "attribution list"

text \<open>
  The body of a \<^verbatim>\<open>GET /images\<close> answer. The early return for an empty page has no
  \<^verbatim>\<open>filters\<close> member, so the member is optional.
\<close>

record images_response =
  images :: "image_with_attributions list"
  pagination :: pagination
  filters :: "filters option"

text \<open>
  The body of a \<^verbatim>\<open>GET /images/:id\<close> answer: the image merged with its attributions, or
  the payload \<^verbatim>\<open>{ error, status }\<close>.
\<close>

datatype image_response =
    ImageFound image_with_attributions
  | ErrorPayload string int

section \<open>The relational store\<close>

record db =
  images_tbl :: "image list"
  attributions_tbl :: "attribution list"

text \<open>A failed query: the error object of the client, with its \<^verbatim>\<open>code\<close>.\<close>

datatype error = PostgrestError (code: string)

text \<open>The queries a handler issues, in the order it awaits them.\<close>

datatype store_query =
    CountImages "timestamp option"
  | SelectImages "timestamp option" int int
  | SelectAttributionsIn "string list"
  | SelectImageSingle string
  | SelectAttributionsOf string
  | SelectSpecies

text \<open>
  Modelled from the spec: the storage engine is an external collaborator, reached through
  the client library; its query semantics is not code of the repository. The filter
  \<^verbatim>\<open>.gte("taken_on", dateThreshold)\<close> keeps the rows whose capture timestamp is at or
  after the bound, and is only added when there is a bound.
\<close>

definition gte_taken_on :: "timestamp option \<Rightarrow> image \<Rightarrow> bool" where
  "gte_taken_on dateThreshold row =
     (case dateThreshold of None \<Rightarrow> True | Some t \<Rightarrow> t \<le> taken_on row)"

text \<open>
  Modelled from the spec: the count query, \<^verbatim>\<open>select("*", { count: "exact", head: true })\<close>,
  gives the number of images matching the time window.
\<close>

definition count_images :: "db \<Rightarrow> timestamp option \<Rightarrow> int option" where
  "count_images d dateThreshold =
     Some (int (length (filter (gte_taken_on dateThreshold) (images_tbl d))))"

text \<open>
  Modelled from the spec: \<^verbatim>\<open>.order("taken_on", { ascending: false })\<close> orders by capture
  timestamp descending. The order among equal timestamps is not specified; the model takes
  the stable one.
\<close>

definition order_taken_on_desc :: "image list \<Rightarrow> image list" where
  "order_taken_on_desc rows = sort_key (\<lambda>row. - taken_on row) rows"

text \<open>
  Modelled from the spec: \<^verbatim>\<open>.range(from, to)\<close> asks for the rows at the zero-based
  positions \<open>from\<close> to \<open>to\<close> of the ordered result, that is offset \<open>from\<close> and row limit
  \<open>to - from + 1\<close>; a window beyond the available rows gives the trailing partial page,
  possibly empty. A negative offset or a negative row limit is refused by the store.
\<close>

definition select_images :: "db \<Rightarrow> timestamp option \<Rightarrow> int \<Rightarrow> int \<Rightarrow> error + image list" where
  "select_images d dateThreshold from to =
     (if from < 0 \<or> to - from + 1 < 0 then Inl (PostgrestError ''PGRST103'')
      else Inr (take (nat (to - from + 1)) (drop (nat from)
             (order_taken_on_desc (filter (gte_taken_on dateThreshold) (images_tbl d))))))"

text \<open>
  Modelled from the spec: \<^verbatim>\<open>.in("image_id", imageIds)\<close> gives every attribution whose
  owning image is among the identifiers.
\<close>

definition select_attributions_in :: "db \<Rightarrow> string list \<Rightarrow> error + attribution list" where
  "select_attributions_in d imageIds =
     Inr (filter (\<lambda>attr. image_id attr \<in> set imageIds) (attributions_tbl d))"

text \<open>
  Modelled from the spec: \<^verbatim>\<open>.eq("id", id).single()\<close> gives the one matching row, and
  the error with code \<^verbatim>\<open>PGRST116\<close> when the number of matching rows is not one.
\<close>

definition select_image_single :: "db \<Rightarrow> string \<Rightarrow> error + image" where
  "select_image_single d i =
     (case filter (\<lambda>row. id_img row = i) (images_tbl d) of
        [row] \<Rightarrow> Inr row
      | _ \<Rightarrow> Inl (PostgrestError ''PGRST116''))"

text \<open>
  Modelled from the spec: the attributions of one image,
  \<^verbatim>\<open>.eq("image_id", id).order("confidence", { ascending: false })\<close>.
\<close>

definition select_attributions_of :: "db \<Rightarrow> string \<Rightarrow> error + attribution list" where
  "select_attributions_of d i =
     Inr (sort_key (\<lambda>attr. - confidence attr)
            (filter (\<lambda>attr. image_id attr = i) (attributions_tbl d)))"

text \<open>
  Modelled from the spec: \<^verbatim>\<open>from("attributions").select("species")\<close> gives the species
  column of every attribution.
\<close>

definition select_species :: "db \<Rightarrow> error + string option list" where
  "select_species d = Inr (map attribution.species (attributions_tbl d))"

section \<open>JavaScript built-ins used by the handlers\<close>

text \<open>
  The white space and line terminator code units below 256: TAB, LF, VT, FF, CR, SP and
  NBSP.
\<close>

definition is_white_space :: "char \<Rightarrow> bool" where
  "is_white_space c = (of_char c \<in> set [9, 10, 11, 12, 13, 32, 160 :: nat])"

text \<open>\<^verbatim>\<open>String.prototype.trim\<close>.\<close>

definition trim :: "string \<Rightarrow> string" where
  "trim s = rev (dropWhile is_white_space (rev (dropWhile is_white_space s)))"

text \<open>The value of a digit or letter as \<^verbatim>\<open>parseInt\<close> reads it.\<close>

definition digit_value :: "char \<Rightarrow> nat option" where
  "digit_value c =
     (let n = of_char c :: nat in
      if 48 \<le> n \<and> n \<le> 57 then Some (n - 48)
      else if 97 \<le> n \<and> n \<le> 122 then Some (n - 87)
      else if 65 \<le> n \<and> n \<le> 90 then Some (n - 55)
      else None)"

definition is_radix_digit :: "nat \<Rightarrow> char \<Rightarrow> bool" where
  "is_radix_digit R c = (case digit_value c of None \<Rightarrow> False | Some v \<Rightarrow> v < R)"

text \<open>
  \<^verbatim>\<open>parseInt(string)\<close> with no radix: leading white space is skipped, a sign is read,
  a prefix \<^verbatim>\<open>0x\<close> or \<^verbatim>\<open>0X\<close> selects radix 16, and the longest run of digits is the
  value. \<open>None\<close> is \<^verbatim>\<open>NaN\<close>; \<^verbatim>\<open>-0\<close> is \<open>0\<close>.
\<close>

definition parseInt :: "string \<Rightarrow> int option" where
  "parseInt inputString =
     (let S = dropWhile is_white_space inputString;
          sign = (if take 1 S = ''-'' then - 1 else 1 :: int);
          S1 = (if take 1 S = ''+'' \<or> take 1 S = ''-'' then drop 1 S else S);
          hex = (take 2 S1 = ''0x'' \<or> take 2 S1 = ''0X'');
          R = (if hex then 16 else 10 :: nat);
          S2 = (if hex then drop 2 S1 else S1);
          Z = takeWhile (is_radix_digit R) S2
      in if Z = [] then None
         else Some (sign * int (foldl (\<lambda>acc c. acc * R + the (digit_value c)) 0 Z)))"

text \<open>
  \<^verbatim>\<open>parseInt(query.page as string)\<close>: an absent parameter is \<^verbatim>\<open>undefined\<close>, which
  \<^verbatim>\<open>parseInt\<close> reads through its string form.
\<close>

definition parseInt_param :: "string option \<Rightarrow> int option" where
  "parseInt_param p = parseInt (case p of None \<Rightarrow> ''undefined'' | Some s \<Rightarrow> s)"

text \<open>\<^verbatim>\<open>n || d\<close> on a number: \<^verbatim>\<open>NaN\<close> and \<^verbatim>\<open>0\<close> are falsy.\<close>

definition number_or :: "int option \<Rightarrow> int \<Rightarrow> int" where
  "number_or n d = (case n of None \<Rightarrow> d | Some v \<Rightarrow> if v = 0 then d else v)"

text \<open>Truthiness of a value that is a string or \<^verbatim>\<open>undefined\<close>.\<close>

definition truthy :: "string option \<Rightarrow> bool" where
  "truthy s = (case s of None \<Rightarrow> False | Some v \<Rightarrow> v \<noteq> [])"

section \<open>\<^verbatim>\<open>GET /images\<close>\<close>

record images_query =
  q_page :: "string option"
  q_limit :: "string option"
  q_timeRange :: "string option"
  q_species :: "string option"

text \<open>The \<^verbatim>\<open>switch (timeRange)\<close> of the handler, \<open>now\<close> being \<^verbatim>\<open>now.getTime()\<close>.\<close>

definition dateThreshold_of :: "timestamp \<Rightarrow> string \<Rightarrow> timestamp option" where
  "dateThreshold_of now tr =
     (if tr = ''1D'' then Some (now - 24 * 60 * 60 * 1000)
      else if tr = ''7D'' then Some (now - 7 * 24 * 60 * 60 * 1000)
      else if tr = ''1M'' then Some (now - 30 * 24 * 60 * 60 * 1000)
      else if tr = ''3M'' then Some (now - 90 * 24 * 60 * 60 * 1000)
      else if tr = ''1YR'' then Some (now - 365 * 24 * 60 * 60 * 1000)
      else None)"

text \<open>
  The reducer that groups attributions by \<^verbatim>\<open>image_id\<close>. The accumulator is a
  \<^verbatim>\<open>Record<string, Attribution[]>\<close> read as the map of its own keys: an identifier
  that names a member inherited from \<^verbatim>\<open>Object.prototype\<close> is outside the model.
\<close>

definition group_step :: "attribution \<Rightarrow> (string \<rightharpoonup> attribution list) \<Rightarrow> (string \<rightharpoonup> attribution list)" where
  "group_step attr acc =
     (case acc (image_id attr) of
        None \<Rightarrow> acc(image_id attr \<mapsto> [attr])
      | Some xs \<Rightarrow> acc(image_id attr \<mapsto> xs @ [attr]))"

definition group_by_image :: "attribution list \<Rightarrow> (string \<rightharpoonup> attribution list)" where
  "group_by_image attrs = fold group_step attrs Map.empty"

text \<open>\<^verbatim>\<open>attr.species && attr.species.trim() !== ""\<close>.\<close>

definition valid_species :: "attribution \<Rightarrow> bool" where
  "valid_species attr =
     (case attribution.species attr of None \<Rightarrow> False | Some s \<Rightarrow> s \<noteq> [] \<and> trim s \<noteq> [])"

text \<open>The callback of \<^verbatim>\<open>images.filter\<close>.\<close>

definition keep_image :: "(string \<rightharpoonup> attribution list) \<Rightarrow> string option \<Rightarrow> image \<Rightarrow> bool" where
  "keep_image attributionsByImage speciesFilter unfilteredImage =
     (case attributionsByImage (id_img unfilteredImage) of
        None \<Rightarrow> False
      | Some attrs \<Rightarrow>
          if \<not> list_ex valid_species attrs then False
          else if truthy speciesFilter
            then list_ex (\<lambda>attr. attribution.species attr = speciesFilter) attrs
          else True)"

text \<open>The callback of \<^verbatim>\<open>.map\<close>: \<^verbatim>\<open>{ ...img, attributions: attributionsByImage[img.id] || [] }\<close>.\<close>

definition with_attributions :: "(string \<rightharpoonup> attribution list) \<Rightarrow> image \<Rightarrow> image_with_attributions" where
  "with_attributions attributionsByImage img =
     image.extend img (image_with_attributions.fields
       (case attributionsByImage (id_img img) of None \<Rightarrow> [] | Some attrs \<Rightarrow> attrs))"

text \<open>\<^verbatim>\<open>Math.ceil((count || 0) / limit)\<close>, over the reals.\<close>

definition total_pages :: "int \<Rightarrow> int \<Rightarrow> int" where
  "total_pages c limit' = \<lceil>real_of_int c / real_of_int limit'\<rceil>"

text \<open>
  The parameters as the handler reads them:
  \<^verbatim>\<open>parseInt(query.page as string) || 1\<close>, \<^verbatim>\<open>parseInt(query.limit as string) || 20\<close>,
  \<^verbatim>\<open>(page - 1) * limit\<close> and \<^verbatim>\<open>(query.timeRange as string) || "All"\<close>.
\<close>

definition page_of :: "images_query \<Rightarrow> int" where
  "page_of query = number_or (parseInt_param (q_page query)) 1"

definition limit_of :: "images_query \<Rightarrow> int" where
  "limit_of query = number_or (parseInt_param (q_limit query)) 20"

definition offset_of :: "images_query \<Rightarrow> int" where
  "offset_of query = (page_of query - 1) * limit_of query"

definition timeRange_of :: "images_query \<Rightarrow> string" where
  "timeRange_of query = (if truthy (q_timeRange query) then the (q_timeRange query) else ''All'')"

text \<open>The count query and the images query, with the arguments the handler gives them.\<close>

definition countQuery :: "db \<Rightarrow> timestamp \<Rightarrow> images_query \<Rightarrow> int option" where
  "countQuery d now query = count_images d (dateThreshold_of now (timeRange_of query))"

definition imagesQuery :: "db \<Rightarrow> timestamp \<Rightarrow> images_query \<Rightarrow> error + image list" where
  "imagesQuery d now query =
     select_images d (dateThreshold_of now (timeRange_of query))
       (offset_of query) (offset_of query + limit_of query - 1)"

text \<open>
  The handler. It returns the queries it issued and either the error it throws or the
  body of its answer. The count query's error is never read, so a count that is absent is
  only seen through \<^verbatim>\<open>count || 0\<close>.
\<close>

definition images_handler :: "db \<Rightarrow> timestamp \<Rightarrow> images_query \<Rightarrow> store_query list \<times> (error + images_response)" where
  "images_handler d now query =
     (let page' = page_of query;
          limit' = limit_of query;
          offset = offset_of query;
          timeRange' = timeRange_of query;
          speciesFilter = q_species query;
          dateThreshold = dateThreshold_of now timeRange';
          count' = countQuery d now query;
          issued = [CountImages dateThreshold, SelectImages dateThreshold offset (offset + limit' - 1)]
      in case imagesQuery d now query of
           Inl imagesError \<Rightarrow> (issued, Inl imagesError)
         | Inr images' \<Rightarrow>
             if images' = [] then
               (issued,
                Inr \<lparr>images = [],
                     pagination = \<lparr>page = page', limit = limit', total = 0, totalPages = 0\<rparr>,
                     filters = None\<rparr>)
             else
               (let imageIds = map id_img images'
                in case select_attributions_in d imageIds of
                     Inl attribError \<Rightarrow> (issued @ [SelectAttributionsIn imageIds], Inl attribError)
                   | Inr attributions' \<Rightarrow>
                       (let attributionsByImage = group_by_image attributions';
                            imagesWithAttributions =
                              map (with_attributions attributionsByImage)
                                (filter (keep_image attributionsByImage speciesFilter) images')
                        in (issued @ [SelectAttributionsIn imageIds],
                            Inr \<lparr>images = imagesWithAttributions,
                                 pagination =
                                   \<lparr>page = page', limit = limit', total = number_or count' 0,
                                    totalPages = total_pages (number_or count' 0) limit'\<rparr>,
                                 filters =
                                   Some \<lparr>filters.timeRange = timeRange',
                                         filters.species =
                                           (if truthy speciesFilter then speciesFilter else None)\<rparr>\<rparr>))))"

section \<open>\<^verbatim>\<open>GET /images/:id\<close>\<close>

definition image_handler :: "db \<Rightarrow> string \<Rightarrow> store_query list \<times> (error + image_response)" where
  "image_handler d i =
     (case select_image_single d i of
        Inl imageError \<Rightarrow>
          if code imageError = ''PGRST116''
            then ([SelectImageSingle i], Inr (ErrorPayload ''Image not found'' 404))
          else ([SelectImageSingle i], Inl imageError)
      | Inr img \<Rightarrow>
          (case select_attributions_of d i of
             Inl attribError \<Rightarrow> ([SelectImageSingle i, SelectAttributionsOf i], Inl attribError)
           | Inr attrs \<Rightarrow>
               ([SelectImageSingle i, SelectAttributionsOf i],
                Inr (ImageFound (image.extend img (image_with_attributions.fields attrs))))))"

section \<open>\<^verbatim>\<open>GET /species\<close>\<close>

text \<open>
  The accumulator of the reducer is the object literal \<^verbatim>\<open>{}\<close>, typed
  \<^verbatim>\<open>Record<string, number>\<close>. It is the list of its own entries in the order they were
  created, and it inherits the members of \<^verbatim>\<open>Object.prototype\<close>: the functions named
  below and the accessor \<^verbatim>\<open>__proto__\<close>.
\<close>

definition object_prototype_functions :: "string list" where
  "object_prototype_functions =
     [''constructor'', ''__defineGetter__'', ''__defineSetter__'', ''hasOwnProperty'',
      ''__lookupGetter__'', ''__lookupSetter__'', ''isPrototypeOf'', ''propertyIsEnumerable'',
      ''toString'', ''valueOf'', ''toLocaleString'']"

text \<open>
  \<^verbatim>\<open>(acc[label] || 0) + 1\<close> for a label other than \<^verbatim>\<open>__proto__\<close>. An own entry is read
  first: a number is incremented (\<^verbatim>\<open>0\<close> is falsy and gives \<open>0 + 1\<close>), a string is truthy and
  gets the character \<^verbatim>\<open>1\<close> appended. With no own entry, the label of an inherited function
  reads that function, which is truthy, and \<^verbatim>\<open>+ 1\<close> appends \<^verbatim>\<open>1\<close> to its source text; any
  other label reads \<^verbatim>\<open>undefined\<close> and gives \<open>0 + 1\<close>.
\<close>

definition increment :: "(string \<times> js_count) list \<Rightarrow> string \<Rightarrow> js_count" where
  "increment acc label =
     (case map_of acc label of
        Some (Number n) \<Rightarrow> Number ((if n = 0 then 0 else n) + 1)
      | Some (FunctionText m k) \<Rightarrow> FunctionText m (k + 1)
      | None \<Rightarrow>
          if label \<in> set object_prototype_functions then FunctionText label 1
          else Number 1)"

text \<open>
  The reducer that counts the labels. The assignment \<^verbatim>\<open>acc[label] = ...\<close> creates or
  overwrites an own entry, except for the label \<^verbatim>\<open>__proto__\<close>: there it calls the inherited
  setter, which ignores a value that is not an object, and the value assigned is the string
  \<^verbatim>\<open>[object Object]1\<close>; the accumulator is unchanged.
\<close>

definition count_step :: "string option \<Rightarrow> (string \<times> js_count) list \<Rightarrow> (string \<times> js_count) list" where
  "count_step sp acc =
     (case sp of
        None \<Rightarrow> acc
      | Some s \<Rightarrow>
          if s \<noteq> [] \<and> trim s \<noteq> []
            then (if s = ''__proto__'' then acc else AList.update s (increment acc s) acc)
          else acc)"

definition speciesCounts :: "string option list \<Rightarrow> (string \<times> js_count) list" where
  "speciesCounts rows = fold count_step rows []"

text \<open>
  A key is an array index when it is the canonical decimal form of an integer from 0 to
  \<open>2 ^ 32 - 2\<close>.
\<close>

definition is_digit :: "char \<Rightarrow> bool" where
  "is_digit c = (48 \<le> (of_char c :: nat) \<and> (of_char c :: nat) \<le> 57)"

definition decimal_value :: "string \<Rightarrow> nat" where
  "decimal_value s = foldl (\<lambda>acc c. acc * 10 + (of_char c - 48)) 0 s"

definition is_array_index :: "string \<Rightarrow> bool" where
  "is_array_index s =
     (s \<noteq> [] \<and> list_all is_digit s \<and> (s = ''0'' \<or> hd s \<noteq> CHR ''0'') \<and>
      decimal_value s < 4294967295)"

text \<open>
  \<^verbatim>\<open>Object.entries\<close>: the own entries, those whose key is an array index first, in
  ascending numeric order, then the others in the order they were created.
\<close>

definition Object_entries :: "(string \<times> 'v) list \<Rightarrow> (string \<times> 'v) list" where
  "Object_entries obj =
     sort_key (\<lambda>(k, v). decimal_value k) (filter (\<lambda>(k, v). is_array_index k) obj) @
     filter (\<lambda>(k, v). \<not> is_array_index k) obj"

text \<open>
  The comparator \<^verbatim>\<open>(a, b) => b.count - a.count\<close>. The subtraction converts its operands
  to numbers and is \<^verbatim>\<open>NaN\<close> when one of them is; the sort reads a comparator result
  \<^verbatim>\<open>NaN\<close> as \<open>0\<close>.
\<close>

definition to_number :: "js_count \<Rightarrow> int option" where
  "to_number c = (case c of Number n \<Rightarrow> Some n | FunctionText m k \<Rightarrow> None)"

definition compareFn :: "species_count \<Rightarrow> species_count \<Rightarrow> int" where
  "compareFn a b =
     (case (to_number (count b), to_number (count a)) of
        (Some y, Some x) \<Rightarrow> y - x
      | _ \<Rightarrow> 0)"

text \<open>
  \<^verbatim>\<open>Array.prototype.sort\<close> with that comparator. The sort is stable, which fixes its
  result whenever the comparator is consistent, as it is on numbers and on any two
  entries; the model is the stable insertion sort. On three or more entries that mix
  numbers and strings the comparator is not consistent and the order is
  implementation-defined; there the model is one possible order.
\<close>

fun insort_compareFn :: "species_count \<Rightarrow> species_count list \<Rightarrow> species_count list" where
  "insort_compareFn x [] = [x]"
| "insort_compareFn x (y # ys) =
     (if compareFn x y \<le> 0 then x # y # ys else y # insort_compareFn x ys)"

definition sort_compareFn :: "species_count list \<Rightarrow> species_count list" where
  "sort_compareFn xs = foldr insort_compareFn xs []"

text \<open>
  \<^verbatim>\<open>Object.entries(speciesCounts).map(([species, count]) => ({ species, count })).sort(...)\<close>.
\<close>

definition speciesArray :: "(string \<times> js_count) list \<Rightarrow> species_count list" where
  "speciesArray counts =
     sort_compareFn
       (map (\<lambda>(s, c). \<lparr>species_count.species = s, count = c\<rparr>) (Object_entries counts))"

definition species_handler :: "db \<Rightarrow> store_query list \<times> (error + species_count list)" where
  "species_handler d =
     (case select_species d of
        Inl e \<Rightarrow> ([SelectSpecies], Inl e)
      | Inr rows \<Rightarrow> ([SelectSpecies], Inr (speciesArray (speciesCounts rows))))"

section \<open>An example store\<close>

text \<open>
  Four images and five attributions, used to run the handlers on concrete requests. Image
  \<open>B\<close> has no attribution; the attributions of \<open>C\<close> carry a blank and a missing label.
\<close>

definition example_image :: "string \<Rightarrow> timestamp \<Rightarrow> image" where
  "example_image i t =
     \<lparr>id_img = i, taken_on = t, stored_on = t, file_name = ''f.jpg'',
      local_file_name = ''f.jpg'', image_size = 1024, image_url = ''u'', download_url = ''u'',
      enhanced_image_url = None, camera_id = ''c1'', camera_name = ''yard'',
      modem_meid = ''m1'', latitude = 0, longitude = 0, is_video = False, video_url = None,
      user_id = ''u1'', is_favorite = False, temperature = None, moon_phase = None,
      tags = None\<rparr>"

definition example_attribution :: "string \<Rightarrow> string option \<Rightarrow> rat \<Rightarrow> attribution" where
  "example_attribution i s c =
     \<lparr>image_id = i, model_version = ''speciesnet-ensemble'', species = s, confidence = c,
      extra = ''{}''\<rparr>"

definition example_db :: db where
  "example_db =
     \<lparr>images_tbl =
        [example_image ''A'' 1735689600000, example_image ''B'' 1748736000000,
         example_image ''C'' 1740000000000, example_image ''D'' 1745000000000],
      attributions_tbl =
        [example_attribution ''A'' (Some ''Blue Jay'') (9 / 10),
         example_attribution ''A'' (Some ''Robin'') (1 / 2),
         example_attribution ''C'' (Some ''  '') (3 / 10),
         example_attribution ''C'' None (1 / 10),
         example_attribution ''D'' (Some ''Blue Jay'') (4 / 5)]\<rparr>"

text \<open>
  The same images, with one attribution labelled \<^verbatim>\<open>constructor\<close> and two labelled
  \<^verbatim>\<open>Robin\<close>.
\<close>

definition example_db_constructor :: db where
  "example_db_constructor =
     \<lparr>images_tbl =
        [example_image ''A'' 1735689600000, example_image ''B'' 1748736000000,
         example_image ''C'' 1740000000000, example_image ''D'' 1745000000000],
      attributions_tbl =
        [example_attribution ''A'' (Some ''constructor'') (9 / 10),
         example_attribution ''A'' (Some ''Robin'') (1 / 2),
         example_attribution ''D'' (Some ''Robin'') (4 / 5)]\<rparr>"

definition example_now :: timestamp where
  "example_now = 1750000000000"

definition example_query :: "string option \<Rightarrow> string option \<Rightarrow> string option \<Rightarrow> string option \<Rightarrow> images_query" where
  "example_query p l t s = \<lparr>q_page = p, q_limit = l, q_timeRange = t, q_species = s\<rparr>"

section \<open>Facts about the model\<close>

lemma trim_Nil [simp]: "trim [] = []"
  by (simp add: trim_def)

lemma fold_group_step:
  "fold group_step as m k =
     (if filter (\<lambda>a. image_id a = k) as = [] then m k
      else Some ((case m k of None \<Rightarrow> [] | Some xs \<Rightarrow> xs) @ filter (\<lambda>a. image_id a = k) as))"
  by (induction as arbitrary: m) (auto simp add: group_step_def split: option.splits)

lemma group_by_image_lookup:
  "group_by_image as k =
     (if filter (\<lambda>a. image_id a = k) as = [] then None
      else Some (filter (\<lambda>a. image_id a = k) as))"
  by (simp add: group_by_image_def fold_group_step)

lemma truncate_with_attributions [simp]: "image.truncate (with_attributions G img) = img"
  by (simp add: with_attributions_def image.defs image_with_attributions.defs)

lemma id_img_with_attributions [simp]: "id_img (with_attributions G img) = id_img img"
  by (simp add: with_attributions_def image.defs image_with_attributions.defs)

lemma attributions_with_attributions:
  "attributions (with_attributions G img) = (case G (id_img img) of None \<Rightarrow> [] | Some attrs \<Rightarrow> attrs)"
  by (simp add: with_attributions_def image.defs image_with_attributions.defs)

lemma images_handler_error:
  "imagesQuery d now query = Inl e \<Longrightarrow>
   images_handler d now query =
     ([CountImages (dateThreshold_of now (timeRange_of query)),
       SelectImages (dateThreshold_of now (timeRange_of query)) (offset_of query)
         (offset_of query + limit_of query - 1)], Inl e)"
  by (simp add: images_handler_def Let_def)

lemma images_handler_empty:
  "imagesQuery d now query = Inr [] \<Longrightarrow>
   images_handler d now query =
     ([CountImages (dateThreshold_of now (timeRange_of query)),
       SelectImages (dateThreshold_of now (timeRange_of query)) (offset_of query)
         (offset_of query + limit_of query - 1)],
      Inr \<lparr>images = [],
           pagination = \<lparr>page = page_of query, limit = limit_of query, total = 0, totalPages = 0\<rparr>,
           filters = None\<rparr>)"
  by (simp add: images_handler_def Let_def)

lemma images_handler_nonempty:
  "imagesQuery d now query = Inr rows \<Longrightarrow> rows \<noteq> [] \<Longrightarrow>
   images_handler d now query =
     ([CountImages (dateThreshold_of now (timeRange_of query)),
       SelectImages (dateThreshold_of now (timeRange_of query)) (offset_of query)
         (offset_of query + limit_of query - 1),
       SelectAttributionsIn (map id_img rows)],
      Inr \<lparr>images =
             map (with_attributions (group_by_image
                    (filter (\<lambda>attr. image_id attr \<in> set (map id_img rows)) (attributions_tbl d))))
               (filter (keep_image (group_by_image
                    (filter (\<lambda>attr. image_id attr \<in> set (map id_img rows)) (attributions_tbl d)))
                  (q_species query)) rows),
           pagination =
             \<lparr>page = page_of query, limit = limit_of query,
              total = number_or (countQuery d now query) 0,
              totalPages = total_pages (number_or (countQuery d now query) 0) (limit_of query)\<rparr>,
           filters =
             Some \<lparr>filters.timeRange = timeRange_of query,
                   filters.species = (if truthy (q_species query) then q_species query else None)\<rparr>\<rparr>)"
  by (simp add: images_handler_def Let_def select_attributions_in_def)

lemma group_of_page_row:
  "img \<in> set rows \<Longrightarrow>
   group_by_image (filter (\<lambda>attr. image_id attr \<in> set (map id_img rows)) tbl) (id_img img) =
     (if filter (\<lambda>a. image_id a = id_img img) tbl = [] then None
      else Some (filter (\<lambda>a. image_id a = id_img img) tbl))"
proof -
  assume "img \<in> set rows"
  then have "filter (\<lambda>a. image_id a = id_img img)
               (filter (\<lambda>attr. image_id attr \<in> set (map id_img rows)) tbl) =
             filter (\<lambda>a. image_id a = id_img img) tbl"
    by (auto intro!: filter_cong)
  then show ?thesis by (simp add: group_by_image_lookup)
qed

lemmas js_defs = parseInt_param_def parseInt_def is_white_space_def is_radix_digit_def
  digit_value_def number_or_def truthy_def trim_def

lemmas param_defs = page_of_def limit_of_def offset_of_def timeRange_of_def example_query_def

lemmas store_defs = imagesQuery_def countQuery_def select_images_def count_images_def
  gte_taken_on_def order_taken_on_desc_def dateThreshold_of_def select_attributions_in_def

lemmas example_defs = example_db_def example_image_def example_attribution_def example_now_def

lemma example_page_all:
  "imagesQuery example_db example_now (example_query None None None s) =
     Inr [example_image ''B'' 1748736000000, example_image ''D'' 1745000000000,
          example_image ''C'' 1740000000000, example_image ''A'' 1735689600000]"
  by (simp add: js_defs param_defs store_defs example_defs)

lemma example_page_far:
  "imagesQuery example_db example_now (example_query (Some ''5'') None None None) = Inr []"
  by (simp add: js_defs param_defs store_defs example_defs)

lemma example_count: "countQuery example_db example_now (example_query p l None s) = Some 4"
  by (simp add: js_defs param_defs store_defs example_defs)

lemma images_handler_window:
  "\<exists>rest. fst (images_handler d now query) =
     CountImages (dateThreshold_of now (timeRange_of query)) #
     SelectImages (dateThreshold_of now (timeRange_of query)) (offset_of query)
       (offset_of query + limit_of query - 1) # rest"
proof (cases "imagesQuery d now query")
  case (Inl e)
  then show ?thesis by (simp add: images_handler_error)
next
  case (Inr rows)
  then show ?thesis
    by (cases "rows = []") (simp_all add: images_handler_empty images_handler_nonempty)
qed

lemma images_handler_echo:
  assumes "snd (images_handler d now query) = Inr resp"
  shows "page (pagination resp) = page_of query \<and> limit (pagination resp) = limit_of query"
proof (cases "imagesQuery d now query")
  case (Inl e)
  with assms show ?thesis by (simp add: images_handler_error)
next
  case (Inr rows)
  with assms show ?thesis
    by (cases "rows = []") (auto simp add: images_handler_empty images_handler_nonempty)
qed

lemma example_page_zero:
  "imagesQuery example_db example_now (example_query (Some ''0'') (Some ''0'') None None) =
     Inr [example_image ''B'' 1748736000000, example_image ''D'' 1745000000000,
          example_image ''C'' 1740000000000, example_image ''A'' 1735689600000]"
  by (simp add: js_defs param_defs store_defs example_defs)

lemma images_handler_response:
  assumes "snd (images_handler d now query) = Inr resp"
  shows "\<exists>rows. imagesQuery d now query = Inr rows \<and>
           images resp =
             map (with_attributions (group_by_image
                    (filter (\<lambda>attr. image_id attr \<in> set (map id_img rows)) (attributions_tbl d))))
               (filter (keep_image (group_by_image
                    (filter (\<lambda>attr. image_id attr \<in> set (map id_img rows)) (attributions_tbl d)))
                  (q_species query)) rows)"
proof (cases "imagesQuery d now query")
  case (Inl e)
  with assms show ?thesis by (simp add: images_handler_error)
next
  case (Inr rows)
  with assms show ?thesis
    by (cases "rows = []") (auto simp add: images_handler_empty images_handler_nonempty)
qed

lemma taken_on_with_attributions [simp]: "taken_on (with_attributions G img) = taken_on img"
  by (simp add: with_attributions_def image.defs image_with_attributions.defs)

lemma order_taken_on_desc_sorted:
  "sorted_wrt (\<lambda>a b. taken_on b \<le> taken_on a) (order_taken_on_desc rows)"
proof -
  have "sorted (map (\<lambda>row. - taken_on row) (order_taken_on_desc rows))"
    unfolding order_taken_on_desc_def by (rule sorted_sort_key)
  then show ?thesis by (simp add: sorted_map)
qed

lemma imagesQuery_rows:
  assumes "imagesQuery d now query = Inr rows"
  shows "rows = take (nat (limit_of query)) (drop (nat ((page_of query - 1) * limit_of query))
           (order_taken_on_desc
              (filter (gte_taken_on (dateThreshold_of now (timeRange_of query))) (images_tbl d))))"
  using assms by (simp add: imagesQuery_def select_images_def offset_of_def split: if_splits)

lemma valid_species_iff:
  "valid_species a \<longleftrightarrow> (\<exists>s. attribution.species a = Some s \<and> trim s \<noteq> [])"
  by (auto simp add: valid_species_def trim_def split: option.splits)

lemma keep_image_page_row:
  assumes "img \<in> set rows"
  shows "keep_image (group_by_image
            (filter (\<lambda>attr. image_id attr \<in> set (map id_img rows)) tbl)) f img \<longleftrightarrow>
         (\<exists>a \<in> set tbl. image_id a = id_img img \<and> valid_species a) \<and>
         (truthy f \<longrightarrow> (\<exists>a \<in> set tbl. image_id a = id_img img \<and> attribution.species a = f))"
  unfolding keep_image_def group_of_page_row [OF assms]
  by (auto simp add: list_ex_iff filter_empty_conv)

lemma total_pages_example: "total_pages 4 20 = 1"
  by (simp only: total_pages_def ceiling_divide_eq_div)

lemma example_params:
  "page_of (example_query None l t s) = 1"
  "limit_of (example_query p None t s) = 20"
  "timeRange_of (example_query p l None s) = ''All''"
  "q_species (example_query p l t s) = s"
  "dateThreshold_of now ''All'' = None"
  by (simp_all add: js_defs param_defs dateThreshold_of_def)

lemma example_fields:
  "attributions_tbl example_db =
     [example_attribution ''A'' (Some ''Blue Jay'') (9 / 10),
      example_attribution ''A'' (Some ''Robin'') (1 / 2),
      example_attribution ''C'' (Some ''  '') (3 / 10),
      example_attribution ''C'' None (1 / 10),
      example_attribution ''D'' (Some ''Blue Jay'') (4 / 5)]"
  "id_img (example_image i t) = i"
  "taken_on (example_image i t) = t"
  "image_id (example_attribution i sp c) = i"
  "attribution.species (example_attribution i sp c) = sp"
  by (simp_all add: example_defs)

lemmas handler_eval = keep_image_def with_attributions_def group_by_image_lookup
  valid_species_def total_pages_example example_params example_fields example_count
  offset_of_def number_or_def truthy_def trim_def is_white_space_def

lemma example_run_blank_filter:
  "images_handler example_db example_now (example_query None None None (Some '''')) =
     ([CountImages None, SelectImages None 0 19, SelectAttributionsIn [''B'', ''D'', ''C'', ''A'']],
      Inr \<lparr>images =
             [image.extend (example_image ''D'' 1745000000000) (image_with_attributions.fields
                [example_attribution ''D'' (Some ''Blue Jay'') (4 / 5)]),
              image.extend (example_image ''A'' 1735689600000) (image_with_attributions.fields
                [example_attribution ''A'' (Some ''Blue Jay'') (9 / 10),
                 example_attribution ''A'' (Some ''Robin'') (1 / 2)])],
           pagination = \<lparr>page = 1, limit = 20, total = 4, totalPages = 1\<rparr>,
           filters = Some \<lparr>filters.timeRange = ''All'', filters.species = None\<rparr>\<rparr>)"
  by (subst images_handler_nonempty [OF example_page_all])
    (simp_all add: handler_eval)

lemma example_run_robin:
  "images_handler example_db example_now (example_query None None None (Some ''Robin'')) =
     ([CountImages None, SelectImages None 0 19, SelectAttributionsIn [''B'', ''D'', ''C'', ''A'']],
      Inr \<lparr>images =
             [image.extend (example_image ''A'' 1735689600000) (image_with_attributions.fields
                [example_attribution ''A'' (Some ''Blue Jay'') (9 / 10),
                 example_attribution ''A'' (Some ''Robin'') (1 / 2)])],
           pagination = \<lparr>page = 1, limit = 20, total = 4, totalPages = 1\<rparr>,
           filters = Some \<lparr>filters.timeRange = ''All'', filters.species = Some ''Robin''\<rparr>\<rparr>)"
  by (subst images_handler_nonempty [OF example_page_all])
    (simp_all add: handler_eval)

lemma example_page_second:
  "imagesQuery example_db example_now (example_query (Some ''2'') (Some ''2'') None None) =
     Inr [example_image ''C'' 1740000000000, example_image ''A'' 1735689600000]"
  by (simp add: js_defs param_defs store_defs example_defs)

text \<open>Facts about the \<^verbatim>\<open>/species\<close> reducer, the entry order and the sort.\<close>

lemmas species_eval = species_handler_def select_species_def speciesArray_def speciesCounts_def
  count_step_def increment_def object_prototype_functions_def Object_entries_def
  is_array_index_def is_digit_def decimal_value_def sort_compareFn_def compareFn_def
  to_number_def trim_def is_white_space_def

lemma example_species_run:
  "species_handler example_db =
     ([SelectSpecies],
      Inr [\<lparr>species_count.species = ''Blue Jay'', count = Number 2\<rparr>,
           \<lparr>species_count.species = ''Robin'', count = Number 1\<rparr>])"
  by (simp add: species_eval example_db_def example_attribution_def)

lemma set_insort_compareFn: "set (insort_compareFn x ys) = insert x (set ys)"
  by (induction ys) auto

lemma set_sort_compareFn: "set (sort_compareFn xs) = set xs"
  by (induction xs) (simp_all add: sort_compareFn_def set_insort_compareFn)

lemma set_Object_entries: "set (Object_entries obj) = set obj"
  by (auto simp add: Object_entries_def)

lemma map_of_count_step:
  "map_of (count_step sp acc) =
     (case sp of
        None \<Rightarrow> map_of acc
      | Some s \<Rightarrow>
          if trim s \<noteq> [] \<and> s \<noteq> ''__proto__''
            then (map_of acc)(s \<mapsto> increment acc s)
          else map_of acc)"
  by (auto simp add: count_step_def update_conv' split: option.splits)

lemma distinct_count_step:
  "distinct (map fst acc) \<Longrightarrow> distinct (map fst (count_step sp acc))"
  by (simp add: count_step_def distinct_update split: option.splits)

lemma distinct_fold_count_step:
  "distinct (map fst acc) \<Longrightarrow> distinct (map fst (fold count_step rows acc))"
  by (induction rows arbitrary: acc) (simp_all add: distinct_count_step)

lemma fold_count_step_key:
  "map_of (fold count_step rows acc) s = Some c \<Longrightarrow>
   map_of acc s \<noteq> None \<or> (trim s \<noteq> [] \<and> s \<noteq> ''__proto__'' \<and> Some s \<in> set rows)"
proof (induction rows arbitrary: acc)
  case Nil
  then show ?case by simp
next
  case (Cons r rows)
  from Cons.IH [of "count_step r acc"] Cons.prems
  have "map_of (count_step r acc) s \<noteq> None \<or>
        (trim s \<noteq> [] \<and> s \<noteq> ''__proto__'' \<and> Some s \<in> set rows)"
    by simp
  then show ?case
    by (cases r) (auto simp add: map_of_count_step split: if_splits)
qed

lemma increment_own_label:
  assumes "s \<notin> set object_prototype_functions"
      and "map_of acc s = None \<or> (\<exists>n. map_of acc s = Some (Number n))"
  shows "increment acc s = Number ((case map_of acc s of Some (Number v) \<Rightarrow> v | _ \<Rightarrow> 0) + 1)"
  using assms by (auto simp add: increment_def)

lemma count_step_own_label:
  assumes "s \<notin> set object_prototype_functions"
      and "map_of acc s = None \<or> (\<exists>n. map_of acc s = Some (Number n))"
  shows "map_of (count_step r acc) s =
     (if r = Some s \<and> trim s \<noteq> [] \<and> s \<noteq> ''__proto__''
        then Some (Number ((case map_of acc s of Some (Number v) \<Rightarrow> v | _ \<Rightarrow> 0) + 1))
      else map_of acc s)"
proof (cases r)
  case None
  then show ?thesis by (simp add: map_of_count_step)
next
  case (Some t)
  show ?thesis
  proof (cases "t = s")
    case True
    with Some show ?thesis
      by (simp add: map_of_count_step increment_own_label [OF assms])
  next
    case False
    with Some show ?thesis
      by (simp add: map_of_count_step)
  qed
qed

lemma fold_count_step_own_label:
  assumes "s \<notin> set object_prototype_functions"
      and "map_of acc s = None \<or> (\<exists>n. map_of acc s = Some (Number n))"
  shows "map_of (fold count_step rows acc) s =
     (if trim s \<noteq> [] \<and> s \<noteq> ''__proto__'' \<and> Some s \<in> set rows
        then Some (Number ((case map_of acc s of Some (Number v) \<Rightarrow> v | _ \<Rightarrow> 0) +
                           int (length (filter (\<lambda>r. r = Some s) rows))))
      else map_of acc s)"
  using assms(2)
proof (induction rows arbitrary: acc)
  case Nil
  then show ?case by simp
next
  case (Cons r rows)
  note one = count_step_own_label [OF assms(1) Cons.prems, of r]
  have step: "map_of (count_step r acc) s = None \<or>
              (\<exists>n. map_of (count_step r acc) s = Some (Number n))"
    using Cons.prems by (simp add: one)
  note ih = Cons.IH [OF step]
  show ?case
  proof (cases "r = Some s \<and> trim s \<noteq> [] \<and> s \<noteq> ''__proto__''")
    case True
    with one have m: "map_of (count_step r acc) s =
        Some (Number ((case map_of acc s of Some (Number v) \<Rightarrow> v | _ \<Rightarrow> 0) + 1))"
      by simp
    have "map_of (fold count_step (r # rows) acc) s = map_of (fold count_step rows (count_step r acc)) s"
      by simp
    also have "\<dots> = Some (Number ((case map_of acc s of Some (Number v) \<Rightarrow> v | _ \<Rightarrow> 0) + 1 +
                           int (length (filter (\<lambda>r. r = Some s) rows))))"
      unfolding ih using True m by (auto simp add: filter_empty_conv)
    finally show ?thesis using True by simp
  next
    case False
    with one have m: "map_of (count_step r acc) s = map_of acc s"
      by simp
    have "map_of (fold count_step (r # rows) acc) s = map_of (fold count_step rows (count_step r acc)) s"
      by simp
    also have "\<dots> = (if trim s \<noteq> [] \<and> s \<noteq> ''__proto__'' \<and> Some s \<in> set rows
        then Some (Number ((case map_of acc s of Some (Number v) \<Rightarrow> v | _ \<Rightarrow> 0) +
                           int (length (filter (\<lambda>r. r = Some s) rows))))
      else map_of acc s)"
      unfolding ih by (simp only: m)
    finally show ?thesis using False by auto
  qed
qed

lemma speciesCounts_entry:
  assumes "(s, c) \<in> set (speciesCounts rows)"
  shows "trim s \<noteq> [] \<and> s \<noteq> ''__proto__'' \<and> Some s \<in> set rows \<and>
         (s \<notin> set object_prototype_functions \<longrightarrow>
            c = Number (int (length (filter (\<lambda>r. r = Some s) rows))))"
proof -
  have "distinct (map fst (speciesCounts rows))"
    unfolding speciesCounts_def by (rule distinct_fold_count_step) simp
  with assms have m: "map_of (fold count_step rows []) s = Some c"
    by (simp add: speciesCounts_def)
  from fold_count_step_key [OF m]
  have k: "trim s \<noteq> [] \<and> s \<noteq> ''__proto__'' \<and> Some s \<in> set rows"
    by simp
  have "c = Number (int (length (filter (\<lambda>r. r = Some s) rows)))"
    if "s \<notin> set object_prototype_functions"
    using m k fold_count_step_own_label [OF that, of "[]" rows] by simp
  with k show ?thesis by blast
qed

lemma compareFn_numbers:
  "count a = Number x \<Longrightarrow> count b = Number y \<Longrightarrow> compareFn a b \<le> 0 \<longleftrightarrow> y \<le> x"
  by (simp add: compareFn_def to_number_def)

lemma insort_compareFn_sorted:
  assumes "\<forall>e \<in> set (x # ys). \<exists>n. count e = Number n"
      and "sorted_wrt (\<lambda>a b. \<exists>m n. count a = Number m \<and> count b = Number n \<and> n \<le> m) ys"
  shows "sorted_wrt (\<lambda>a b. \<exists>m n. count a = Number m \<and> count b = Number n \<and> n \<le> m)
           (insort_compareFn x ys)"
  using assms
proof (induction ys)
  case Nil
  then show ?case by simp
next
  case (Cons y ys)
  from Cons.prems(1) obtain cx cy where x: "count x = Number cx" and y: "count y = Number cy"
    by auto
  show ?case
  proof (cases "compareFn x y \<le> 0")
    case True
    with x y have le: "cy \<le> cx" by (simp add: compareFn_numbers)
    have "\<exists>m n. count x = Number m \<and> count z = Number n \<and> n \<le> m" if "z \<in> set (y # ys)" for z
    proof (cases "z = y")
      case True
      with x y le show ?thesis by simp
    next
      case False
      with that Cons.prems(2) obtain n where "count z = Number n" "n \<le> cy"
        using y by auto
      with x le show ?thesis by auto
    qed
    with True Cons.prems(2) show ?thesis by simp
  next
    case False
    with x y have lt: "cx \<le> cy" by (simp add: compareFn_numbers)
    have tail: "sorted_wrt (\<lambda>a b. \<exists>m n. count a = Number m \<and> count b = Number n \<and> n \<le> m)
           (insort_compareFn x ys)"
      using Cons.IH Cons.prems by simp
    have "\<exists>m n. count y = Number m \<and> count z = Number n \<and> n \<le> m"
      if "z \<in> set (insort_compareFn x ys)" for z
      using that Cons.prems(2) x y lt by (auto simp add: set_insort_compareFn)
    with False tail show ?thesis by simp
  qed
qed

lemma sort_compareFn_sorted:
  assumes "\<forall>e \<in> set xs. \<exists>n. count e = Number n"
  shows "sorted_wrt (\<lambda>a b. \<exists>m n. count a = Number m \<and> count b = Number n \<and> n \<le> m)
           (sort_compareFn xs)"
  using assms
proof (induction xs)
  case Nil
  then show ?case by (simp add: sort_compareFn_def)
next
  case (Cons x xs)
  have "sorted_wrt (\<lambda>a b. \<exists>m n. count a = Number m \<and> count b = Number n \<and> n \<le> m)
           (insort_compareFn x (sort_compareFn xs))"
    using Cons by (intro insort_compareFn_sorted) (simp_all add: set_sort_compareFn)
  then show ?case by (simp add: sort_compareFn_def)
qed

lemma speciesArray_set:
  "set (speciesArray counts) =
     (\<lambda>(s, c). \<lparr>species_count.species = s, count = c\<rparr>) ` set counts"
  by (simp add: speciesArray_def set_sort_compareFn set_Object_entries)

text \<open>
  What the listing guarantees on every store: no entry has a blank label or the label
  \<^verbatim>\<open>__proto__\<close>, and an entry whose label does not name an inherited function has as
  count the number of attributions that carry its label. When no label of the store names
  an inherited function, every count is a number and the entries are in descending order
  of count.
\<close>

lemma species_listing_own_labels:
  "\<exists>out. species_handler d = ([SelectSpecies], Inr out) \<and>
     (\<forall>e \<in> set out.
        trim (species_count.species e) \<noteq> [] \<and>
        species_count.species e \<noteq> ''__proto__'' \<and>
        (species_count.species e \<notin> set object_prototype_functions \<longrightarrow>
           count e = Number (int (length
             (filter (\<lambda>a. attribution.species a = Some (species_count.species e))
                (attributions_tbl d)))))) \<and>
     ((\<forall>a \<in> set (attributions_tbl d). \<forall>s. attribution.species a = Some s \<longrightarrow>
          s \<notin> set object_prototype_functions) \<longrightarrow>
      sorted_wrt (\<lambda>a b. \<exists>m n. count a = Number m \<and> count b = Number n \<and> n \<le> m) out)"
proof -
  let ?rows = "map attribution.species (attributions_tbl d)"
  let ?out = "speciesArray (speciesCounts ?rows)"
  have h: "species_handler d = ([SelectSpecies], Inr ?out)"
    by (simp add: species_handler_def select_species_def)
  have entry: "trim (species_count.species e) \<noteq> [] \<and>
        species_count.species e \<noteq> ''__proto__'' \<and>
        Some (species_count.species e) \<in> set ?rows \<and>
        (species_count.species e \<notin> set object_prototype_functions \<longrightarrow>
           count e = Number (int (length
             (filter (\<lambda>a. attribution.species a = Some (species_count.species e))
                (attributions_tbl d)))))"
    if "e \<in> set ?out" for e
  proof -
    from that obtain s c where m: "(s, c) \<in> set (speciesCounts ?rows)"
      and e: "e = \<lparr>species_count.species = s, count = c\<rparr>"
      by (auto simp add: speciesArray_set)
    from speciesCounts_entry [OF m] show ?thesis
      by (simp add: e filter_map comp_def)
  qed
  have "sorted_wrt (\<lambda>a b. \<exists>m n. count a = Number m \<and> count b = Number n \<and> n \<le> m) ?out"
    if own: "\<forall>a \<in> set (attributions_tbl d). \<forall>s. attribution.species a = Some s \<longrightarrow>
          s \<notin> set object_prototype_functions"
  proof -
    have "\<exists>n. count e = Number n" if "e \<in> set ?out" for e
    proof -
      from entry [OF that] obtain a where "a \<in> set (attributions_tbl d)"
        "Some (species_count.species e) = attribution.species a"
        by auto
      with own have "species_count.species e \<notin> set object_prototype_functions"
        by metis
      with entry [OF that] show ?thesis by blast
    qed
    then have "\<forall>e \<in> set (map (\<lambda>(s, c). \<lparr>species_count.species = s, count = c\<rparr>)
                 (Object_entries (speciesCounts ?rows))). \<exists>n. count e = Number n"
      by (simp add: speciesArray_def set_sort_compareFn)
    then show ?thesis
      unfolding speciesArray_def by (rule sort_compareFn_sorted)
  qed
  with h entry show ?thesis by blast
qed

section \<open>Properties of the specification\<close>

text \<open>
  C1. The request \<^verbatim>\<open>GET /images?page=5\<close> on the example store asks for the rows 80 to
  99 of four, so the fetched page is empty. The answer has no images, and its pagination
  reports \<open>total = 0\<close> and \<open>totalPages = 0\<close>, the constants of the early return, while
  the count query of the same request found four images in the window, for which the
  non-empty branch would report \<open>total = 4\<close> and \<open>totalPages = 1\<close>.
\<close>

theorem empty_page_reports_zero_total:
  "images_handler example_db example_now (example_query (Some ''5'') None None None) =
     ([CountImages None, SelectImages None 80 99],
      Inr \<lparr>images = [],
           pagination = \<lparr>page = 5, limit = 20, total = 0, totalPages = 0\<rparr>,
           filters = None\<rparr>) \<and>
   countQuery example_db example_now (example_query (Some ''5'') None None None) = Some 4 \<and>
   total_pages 4 20 = 1"
  using images_handler_empty [OF example_page_far] example_count total_pages_example
  by (simp add: js_defs param_defs dateThreshold_of_def)

text \<open>
  C2, amended. An image of the fetched page is in the \<^verbatim>\<open>images\<close> array of the answer if
  and only if it has an attribution whose species label is non-blank after trimming and,
  when a non-empty species filter is supplied, it has an attribution whose label equals
  the filter exactly. An empty filter value is falsy and filters nothing.
\<close>

theorem image_listed_iff:
  assumes "snd (images_handler d now query) = Inr resp"
      and "imagesQuery d now query = Inr rows"
      and "img \<in> set rows"
  shows "img \<in> image.truncate ` set (images resp) \<longleftrightarrow>
         (\<exists>a \<in> set (attributions_tbl d). image_id a = id_img img \<and>
             (\<exists>s. attribution.species a = Some s \<and> trim s \<noteq> [])) \<and>
         (\<forall>f. q_species query = Some f \<and> f \<noteq> [] \<longrightarrow>
             (\<exists>a \<in> set (attributions_tbl d). image_id a = id_img img \<and>
                 attribution.species a = Some f))"
proof -
  let ?G = "group_by_image
              (filter (\<lambda>attr. image_id attr \<in> set (map id_img rows)) (attributions_tbl d))"
  from images_handler_response [OF assms(1)] assms(2)
  have i: "images resp = map (with_attributions ?G) (filter (keep_image ?G (q_species query)) rows)"
    by auto
  have "map image.truncate (images resp) = filter (keep_image ?G (q_species query)) rows"
    by (simp add: i comp_def)
  then have "image.truncate ` set (images resp) = set (filter (keep_image ?G (q_species query)) rows)"
    by (simp only: set_map [symmetric])
  then have "img \<in> image.truncate ` set (images resp) \<longleftrightarrow> keep_image ?G (q_species query) img"
    using assms(3) by simp
  also have "\<dots> \<longleftrightarrow>
         (\<exists>a \<in> set (attributions_tbl d). image_id a = id_img img \<and> valid_species a) \<and>
         (truthy (q_species query) \<longrightarrow>
            (\<exists>a \<in> set (attributions_tbl d). image_id a = id_img img \<and>
                attribution.species a = q_species query))"
    by (rule keep_image_page_row [OF assms(3)])
  also have "\<dots> \<longleftrightarrow>
         (\<exists>a \<in> set (attributions_tbl d). image_id a = id_img img \<and>
             (\<exists>s. attribution.species a = Some s \<and> trim s \<noteq> [])) \<and>
         (\<forall>f. q_species query = Some f \<and> f \<noteq> [] \<longrightarrow>
             (\<exists>a \<in> set (attributions_tbl d). image_id a = id_img img \<and>
                 attribution.species a = Some f))"
    by (cases "q_species query") (auto simp add: valid_species_iff truthy_def)
  finally show ?thesis .
qed

theorem image_listed_iff_witness:
  "imagesQuery example_db example_now (example_query None None None (Some ''Blue Jay'')) =
     Inr [example_image ''B'' 1748736000000, example_image ''D'' 1745000000000,
          example_image ''C'' 1740000000000, example_image ''A'' 1735689600000] \<and>
   q_species (example_query None None None (Some ''Blue Jay'')) = Some ''Blue Jay'' \<and>
   (\<exists>resp. snd (images_handler example_db example_now
                   (example_query None None None (Some ''Blue Jay''))) = Inr resp \<and>
           example_image ''A'' 1735689600000 \<in> image.truncate ` set (images resp) \<and>
           example_image ''B'' 1748736000000 \<notin> image.truncate ` set (images resp) \<and>
           example_image ''C'' 1740000000000 \<notin> image.truncate ` set (images resp))"
proof -
  let ?q = "example_query None None None (Some ''Blue Jay'')"
  let ?rows = "[example_image ''B'' 1748736000000, example_image ''D'' 1745000000000,
          example_image ''C'' 1740000000000, example_image ''A'' 1735689600000]"
  obtain resp where r: "snd (images_handler example_db example_now ?q) = Inr resp"
    using images_handler_nonempty [OF example_page_all] by simp
  have a: "example_image ''A'' 1735689600000 \<in> set ?rows"
    and b: "example_image ''B'' 1748736000000 \<in> set ?rows"
    and c: "example_image ''C'' 1740000000000 \<in> set ?rows"
    by simp_all
  have "example_image ''A'' 1735689600000 \<in> image.truncate ` set (images resp)"
    unfolding image_listed_iff [OF r example_page_all a]
    by (simp add: example_params example_fields trim_def is_white_space_def)
  moreover have "example_image ''B'' 1748736000000 \<notin> image.truncate ` set (images resp)"
    unfolding image_listed_iff [OF r example_page_all b]
    by (simp add: example_params example_fields trim_def is_white_space_def)
  moreover have "example_image ''C'' 1740000000000 \<notin> image.truncate ` set (images resp)"
    unfolding image_listed_iff [OF r example_page_all c]
    by (simp add: example_params example_fields trim_def is_white_space_def)
  ultimately show ?thesis
    using r example_page_all example_params(4) by blast
qed

text \<open>
  C2 as stated fails for the supplied but empty filter \<^verbatim>\<open>?species=\<close>: image \<open>A\<close> of the
  example store is on the fetched page and in the answer, and none of its attributions has
  the empty label.
\<close>

theorem blank_species_filter_counterexample:
  "imagesQuery example_db example_now (example_query None None None (Some '''')) =
     Inr [example_image ''B'' 1748736000000, example_image ''D'' 1745000000000,
          example_image ''C'' 1740000000000, example_image ''A'' 1735689600000] \<and>
   q_species (example_query None None None (Some '''')) = Some '''' \<and>
   snd (images_handler example_db example_now (example_query None None None (Some ''''))) =
     Inr \<lparr>images =
            [image.extend (example_image ''D'' 1745000000000) (image_with_attributions.fields
               [example_attribution ''D'' (Some ''Blue Jay'') (4 / 5)]),
             image.extend (example_image ''A'' 1735689600000) (image_with_attributions.fields
               [example_attribution ''A'' (Some ''Blue Jay'') (9 / 10),
                example_attribution ''A'' (Some ''Robin'') (1 / 2)])],
          pagination = \<lparr>page = 1, limit = 20, total = 4, totalPages = 1\<rparr>,
          filters = Some \<lparr>filters.timeRange = ''All'', filters.species = None\<rparr>\<rparr> \<and>
   image.truncate
     (image.extend (example_image ''A'' 1735689600000) (image_with_attributions.fields
        [example_attribution ''A'' (Some ''Blue Jay'') (9 / 10),
         example_attribution ''A'' (Some ''Robin'') (1 / 2)])) =
     example_image ''A'' 1735689600000 \<and>
   \<not> list_ex (\<lambda>a. image_id a = id_img (example_image ''A'' 1735689600000) \<and>
                    attribution.species a = Some '''')
        (attributions_tbl example_db)"
  by (simp add: example_page_all example_run_blank_filter example_params example_fields
      image.defs image_with_attributions.defs)

text \<open>
  C3. When the fetched page is not empty, the pagination of the answer is the page and the
  limit as read from the request, \<open>total\<close> the number of images in the time window, a
  number that depends on neither the attributions nor the species filter, and
  \<open>totalPages\<close> the ceiling of \<open>total / limit\<close>; the ceiling of \<open>0 / limit\<close> is 0.
\<close>

theorem pagination_of_nonempty_page:
  assumes "imagesQuery d now query = Inr rows" and "rows \<noteq> []"
  shows "\<exists>resp. snd (images_handler d now query) = Inr resp \<and>
           page (pagination resp) = page_of query \<and>
           limit (pagination resp) = limit_of query \<and>
           total (pagination resp) =
             int (length (filter (gte_taken_on (dateThreshold_of now (timeRange_of query)))
                            (images_tbl d))) \<and>
           totalPages (pagination resp) =
             \<lceil>real_of_int (total (pagination resp)) / real_of_int (limit (pagination resp))\<rceil> \<and>
           total_pages 0 (limit_of query) = 0"
  by (simp add: images_handler_nonempty [OF assms] countQuery_def count_images_def
      number_or_def total_pages_def)

theorem pagination_of_nonempty_page_witness:
  "imagesQuery example_db example_now (example_query None None None (Some ''Blue Jay'')) =
     Inr [example_image ''B'' 1748736000000, example_image ''D'' 1745000000000,
          example_image ''C'' 1740000000000, example_image ''A'' 1735689600000] \<and>
   (\<exists>resp. snd (images_handler example_db example_now
                   (example_query None None None (Some ''Blue Jay''))) = Inr resp \<and>
           page (pagination resp) = 1 \<and> limit (pagination resp) = 20 \<and>
           total (pagination resp) = 4 \<and> totalPages (pagination resp) = 1)"
proof -
  let ?q = "example_query None None None (Some ''Blue Jay'')"
  have ne: "[example_image ''B'' 1748736000000, example_image ''D'' 1745000000000,
          example_image ''C'' 1740000000000, example_image ''A'' 1735689600000] \<noteq> []"
    by simp
  have v: "page_of ?q = 1" "limit_of ?q = 20"
    "int (length (filter (gte_taken_on (dateThreshold_of example_now (timeRange_of ?q)))
                            (images_tbl example_db))) = 4"
    by (simp_all add: js_defs param_defs store_defs example_defs)
  obtain resp where r: "snd (images_handler example_db example_now ?q) = Inr resp"
    "page (pagination resp) = page_of ?q" "limit (pagination resp) = limit_of ?q"
    "total (pagination resp) =
             int (length (filter (gte_taken_on (dateThreshold_of example_now (timeRange_of ?q)))
                            (images_tbl example_db)))"
    "totalPages (pagination resp) =
             \<lceil>real_of_int (total (pagination resp)) / real_of_int (limit (pagination resp))\<rceil>"
    using pagination_of_nonempty_page [OF example_page_all ne] by blast
  from r(5) have "totalPages (pagination resp) =
      - (- total (pagination resp) div limit (pagination resp))"
    by (simp only: ceiling_divide_eq_div)
  with r v have "page (pagination resp) = 1" "limit (pagination resp) = 20"
    "total (pagination resp) = 4" "totalPages (pagination resp) = 1"
    by simp_all
  with r(1) example_page_all show ?thesis by blast
qed

text \<open>
  C4. The Time-Window Resolver maps the tokens 1D, 7D, 1M, 3M and 1YR to the current time
  minus 1, 7, 30, 90 and 365 days (a day is 86400000 milliseconds), and maps All and every
  other token to no lower bound. The resolver is total: no token makes it fail.
\<close>

theorem time_window_resolver:
  "dateThreshold_of now ''1D'' = Some (now - 1 * 86400000) \<and>
   dateThreshold_of now ''7D'' = Some (now - 7 * 86400000) \<and>
   dateThreshold_of now ''1M'' = Some (now - 30 * 86400000) \<and>
   dateThreshold_of now ''3M'' = Some (now - 90 * 86400000) \<and>
   dateThreshold_of now ''1YR'' = Some (now - 365 * 86400000) \<and>
   dateThreshold_of now ''All'' = None \<and>
   (token \<notin> set [''1D'', ''7D'', ''1M'', ''3M'', ''1YR''] \<longrightarrow> dateThreshold_of now token = None)"
  by (simp add: dateThreshold_of_def)

theorem time_window_resolver_witness:
  "''2W'' \<notin> set [''1D'', ''7D'', ''1M'', ''3M'', ''1YR''] \<and>
   dateThreshold_of example_now ''2W'' = None \<and>
   dateThreshold_of example_now ''7D'' = Some 1749395200000"
proof -
  have h: "''2W'' \<notin> set [''1D'', ''7D'', ''1M'', ''3M'', ''1YR'']" by simp
  note r = time_window_resolver [of example_now "''2W''"]
  from r h have "dateThreshold_of example_now ''2W'' = None" by blast
  moreover from r have "dateThreshold_of example_now ''7D'' = Some (example_now - 7 * 86400000)"
    by blast
  then have "dateThreshold_of example_now ''7D'' = Some 1749395200000"
    by (simp add: example_now_def)
  ultimately show ?thesis using h by blast
qed

text \<open>
  C5. The attributions attached to an image of the answer are all the loaded attributions
  of that image, in the order loaded, which are all its attributions in the store: the
  species filter narrows the images, never the attached list.
\<close>

theorem attached_attributions_full_group:
  assumes "snd (images_handler d now query) = Inr resp" and "e \<in> set (images resp)"
  shows "\<exists>rows loaded. imagesQuery d now query = Inr rows \<and>
           select_attributions_in d (map id_img rows) = Inr loaded \<and>
           attributions e = filter (\<lambda>a. image_id a = id_img e) loaded \<and>
           attributions e = filter (\<lambda>a. image_id a = id_img e) (attributions_tbl d)"
proof -
  from images_handler_response [OF assms(1)] obtain rows where
    q: "imagesQuery d now query = Inr rows" and
    i: "images resp =
             map (with_attributions (group_by_image
                    (filter (\<lambda>attr. image_id attr \<in> set (map id_img rows)) (attributions_tbl d))))
               (filter (keep_image (group_by_image
                    (filter (\<lambda>attr. image_id attr \<in> set (map id_img rows)) (attributions_tbl d)))
                  (q_species query)) rows)"
    by blast
  let ?loaded = "filter (\<lambda>attr. image_id attr \<in> set (map id_img rows)) (attributions_tbl d)"
  from assms(2) i obtain img where m: "img \<in> set rows"
    and e: "e = with_attributions (group_by_image ?loaded) img"
    by auto
  have same: "filter (\<lambda>a. image_id a = id_img img) ?loaded =
              filter (\<lambda>a. image_id a = id_img img) (attributions_tbl d)"
    using m by (auto intro!: filter_cong)
  have "attributions e = filter (\<lambda>a. image_id a = id_img img) (attributions_tbl d)"
    unfolding e using m
    by (simp add: attributions_with_attributions group_of_page_row del: set_map)
  moreover have "id_img e = id_img img" unfolding e by simp
  ultimately show ?thesis using q same
    by (simp add: select_attributions_in_def)
qed

theorem attached_attributions_full_group_witness:
  "\<exists>resp e. snd (images_handler example_db example_now
                   (example_query None None None (Some ''Robin''))) = Inr resp \<and>
     e \<in> set (images resp) \<and> id_img e = ''A'' \<and>
     attributions e =
       [example_attribution ''A'' (Some ''Blue Jay'') (9 / 10),
        example_attribution ''A'' (Some ''Robin'') (1 / 2)]"
proof -
  let ?q = "example_query None None None (Some ''Robin'')"
  let ?e = "image.extend (example_image ''A'' 1735689600000) (image_with_attributions.fields
                [example_attribution ''A'' (Some ''Blue Jay'') (9 / 10),
                 example_attribution ''A'' (Some ''Robin'') (1 / 2)])"
  let ?resp = "\<lparr>images = [?e],
           pagination = \<lparr>page = 1, limit = 20, total = 4, totalPages = 1\<rparr>,
           filters = Some \<lparr>filters.timeRange = ''All'', filters.species = Some ''Robin''\<rparr>\<rparr>"
  have r: "snd (images_handler example_db example_now ?q) = Inr ?resp"
    by (simp add: example_run_robin)
  have m: "?e \<in> set (images ?resp)" by simp
  have i: "id_img ?e = ''A''"
    by (simp add: image.defs example_fields)
  from attached_attributions_full_group [OF r m]
  have "attributions ?e = filter (\<lambda>a. image_id a = id_img ?e) (attributions_tbl example_db)"
    by blast
  then have "attributions ?e =
       [example_attribution ''A'' (Some ''Blue Jay'') (9 / 10),
        example_attribution ''A'' (Some ''Robin'') (1 / 2)]"
    unfolding i by (simp add: example_fields)
  with r m i show ?thesis by blast
qed

text \<open>
  C6. On a store whose attributions are labelled \<^verbatim>\<open>constructor\<close>, \<^verbatim>\<open>Robin\<close> and
  \<^verbatim>\<open>Robin\<close>, the \<^verbatim>\<open>/species\<close> answer lists \<^verbatim>\<open>constructor\<close> first, with a count that is
  not the number 1 but the source text of the inherited function followed by \<^verbatim>\<open>1\<close>, ahead
  of \<^verbatim>\<open>Robin\<close> with count 2: that count is not the number of attributions with the
  label, and the entries are not in descending order of count.
\<close>

theorem inherited_label_count:
  "species_handler example_db_constructor =
     ([SelectSpecies],
      Inr [\<lparr>species_count.species = ''constructor'', count = FunctionText ''constructor'' 1\<rparr>,
           \<lparr>species_count.species = ''Robin'', count = Number 2\<rparr>]) \<and>
   length (filter (\<lambda>a. attribution.species a = Some ''constructor'')
             (attributions_tbl example_db_constructor)) = 1 \<and>
   length (filter (\<lambda>a. attribution.species a = Some ''Robin'')
             (attributions_tbl example_db_constructor)) = 2"
  by (simp add: species_eval example_db_constructor_def example_attribution_def)

text \<open>
  C7. The images of an answer are in descending order of \<^verbatim>\<open>taken_on\<close>. The fetched page
  is the window of \<open>limit\<close> rows starting at offset \<open>(page - 1) * limit\<close> of the images
  in the time window, ordered by \<^verbatim>\<open>taken_on\<close> descending, and the images of the
  answer, without their attributions, are a subsequence of it.
\<close>

theorem images_ordered_window_subsequence:
  assumes "snd (images_handler d now query) = Inr resp"
  shows "\<exists>rows. imagesQuery d now query = Inr rows \<and>
           rows = take (nat (limit_of query)) (drop (nat ((page_of query - 1) * limit_of query))
             (order_taken_on_desc
                (filter (gte_taken_on (dateThreshold_of now (timeRange_of query))) (images_tbl d)))) \<and>
           sorted_wrt (\<lambda>a b. taken_on b \<le> taken_on a) rows \<and>
           subseq (map image.truncate (images resp)) rows \<and>
           sorted_wrt (\<lambda>a b. taken_on b \<le> taken_on a) (images resp)"
proof -
  from images_handler_response [OF assms] obtain rows G where
    q: "imagesQuery d now query = Inr rows" and
    i: "images resp = map (with_attributions G) (filter (keep_image G (q_species query)) rows)"
    by blast
  note w = imagesQuery_rows [OF q]
  have s: "sorted_wrt (\<lambda>a b. taken_on b \<le> taken_on a) rows"
    by (subst w) (intro sorted_wrt_take sorted_wrt_drop order_taken_on_desc_sorted)
  have "map image.truncate (images resp) = filter (keep_image G (q_species query)) rows"
    by (simp add: i comp_def)
  then have sub: "subseq (map image.truncate (images resp)) rows"
    by simp
  have "sorted_wrt (\<lambda>a b. taken_on b \<le> taken_on a) (filter (keep_image G (q_species query)) rows)"
    using s by (rule sorted_wrt_filter)
  then have "sorted_wrt (\<lambda>a b. taken_on b \<le> taken_on a) (images resp)"
    by (simp add: i sorted_wrt_map)
  with q w s sub show ?thesis by blast
qed

theorem images_ordered_window_subsequence_witness:
  "\<exists>resp. snd (images_handler example_db example_now
                  (example_query (Some ''2'') (Some ''2'') None None)) = Inr resp \<and>
     subseq (map image.truncate (images resp))
       [example_image ''C'' 1740000000000, example_image ''A'' 1735689600000] \<and>
     sorted_wrt (\<lambda>a b. taken_on b \<le> taken_on a) (images resp)"
proof -
  let ?q = "example_query (Some ''2'') (Some ''2'') None None"
  obtain resp where r: "snd (images_handler example_db example_now ?q) = Inr resp"
    using images_handler_nonempty [OF example_page_second] by simp
  from images_ordered_window_subsequence [OF r] example_page_second
  have "subseq (map image.truncate (images resp))
       [example_image ''C'' 1740000000000, example_image ''A'' 1735689600000] \<and>
     sorted_wrt (\<lambda>a b. taken_on b \<le> taken_on a) (images resp)"
    by auto
  with r show ?thesis by blast
qed

text \<open>
  C8. When no image row has the requested identifier, \<^verbatim>\<open>GET /images/:id\<close> answers the
  payload \<^verbatim>\<open>{ error: "Image not found", status: 404 }\<close>, as a value and not as a thrown
  error, and the only query issued is the one for the image: the attribution query is not
  issued.
\<close>

theorem image_not_found:
  assumes "\<forall>row \<in> set (images_tbl d). id_img row \<noteq> i"
  shows "image_handler d i = ([SelectImageSingle i], Inr (ErrorPayload ''Image not found'' 404)) \<and>
         SelectAttributionsOf i \<notin> set (fst (image_handler d i))"
proof -
  from assms have "filter (\<lambda>row. id_img row = i) (images_tbl d) = []"
    by (simp add: filter_empty_conv)
  then show ?thesis
    by (simp add: image_handler_def select_image_single_def)
qed

theorem image_not_found_witness:
  "''Z'' \<notin> set (map id_img (images_tbl example_db)) \<and>
   image_handler example_db ''Z'' = ([SelectImageSingle ''Z''], Inr (ErrorPayload ''Image not found'' 404)) \<and>
   SelectAttributionsOf ''Z'' \<notin> set (fst (image_handler example_db ''Z''))"
proof -
  have z: "''Z'' \<notin> set (map id_img (images_tbl example_db))"
    by (simp add: example_defs)
  have h: "\<forall>row \<in> set (images_tbl example_db). id_img row \<noteq> ''Z''"
    by (simp add: example_defs)
  from image_not_found [OF h] z show ?thesis by blast
qed

text \<open>
  C9. When the fetched page is empty, the handler issues the count query and the images
  query and nothing else, so no attribution query, and answers an empty \<^verbatim>\<open>images\<close>
  array.
\<close>

theorem empty_page_short_circuit:
  assumes "imagesQuery d now query = Inr []"
  shows "fst (images_handler d now query) =
           [CountImages (dateThreshold_of now (timeRange_of query)),
            SelectImages (dateThreshold_of now (timeRange_of query)) (offset_of query)
              (offset_of query + limit_of query - 1)] \<and>
         (\<forall>ids. SelectAttributionsIn ids \<notin> set (fst (images_handler d now query))) \<and>
         (\<exists>resp. snd (images_handler d now query) = Inr resp \<and> images resp = [])"
  by (simp add: images_handler_empty [OF assms])

theorem empty_page_short_circuit_witness:
  "imagesQuery example_db example_now (example_query (Some ''5'') None None None) = Inr [] \<and>
   fst (images_handler example_db example_now (example_query (Some ''5'') None None None)) =
     [CountImages None, SelectImages None 80 99] \<and>
   (\<exists>resp. snd (images_handler example_db example_now (example_query (Some ''5'') None None None))
            = Inr resp \<and> images resp = [])"
proof -
  let ?q = "example_query (Some ''5'') None None None"
  note r = empty_page_short_circuit [OF example_page_far]
  have "dateThreshold_of example_now (timeRange_of ?q) = None" "offset_of ?q = 80"
       "limit_of ?q = 20"
    by (simp_all add: js_defs param_defs dateThreshold_of_def)
  with r have "fst (images_handler example_db example_now ?q) =
     [CountImages None, SelectImages None 80 99]"
    by simp
  with r example_page_far show ?thesis by blast
qed

text \<open>
  C10. A \<^verbatim>\<open>page\<close> or \<^verbatim>\<open>limit\<close> parameter that parses to the number 0 is replaced by
  its default, 1 or 20: the window asked of the store starts at offset 0 when the page
  parses to 0 and has 20 rows when the limit parses to 0, and the answer echoes the
  default.
\<close>

theorem zero_parameter_defaulted:
  "(parseInt_param (q_page query) = Some 0 \<longrightarrow>
      (\<exists>th to rest. fst (images_handler d now query) = CountImages th # SelectImages th 0 to # rest) \<and>
      (\<forall>resp. snd (images_handler d now query) = Inr resp \<longrightarrow> page (pagination resp) = 1)) \<and>
   (parseInt_param (q_limit query) = Some 0 \<longrightarrow>
      (\<exists>th from rest. fst (images_handler d now query) =
          CountImages th # SelectImages th from (from + 20 - 1) # rest) \<and>
      (\<forall>resp. snd (images_handler d now query) = Inr resp \<longrightarrow> limit (pagination resp) = 20))"
proof -
  have p: "page_of query = 1" if "parseInt_param (q_page query) = Some 0"
    using that by (simp add: page_of_def number_or_def)
  have l: "limit_of query = 20" if "parseInt_param (q_limit query) = Some 0"
    using that by (simp add: limit_of_def number_or_def)
  obtain rest where w: "fst (images_handler d now query) =
     CountImages (dateThreshold_of now (timeRange_of query)) #
     SelectImages (dateThreshold_of now (timeRange_of query)) (offset_of query)
       (offset_of query + limit_of query - 1) # rest"
    using images_handler_window by blast
  have "\<exists>th to rest. fst (images_handler d now query) = CountImages th # SelectImages th 0 to # rest"
    if "parseInt_param (q_page query) = Some 0"
    using w p [OF that] by (simp add: offset_of_def)
  moreover have "\<exists>th from rest. fst (images_handler d now query) =
          CountImages th # SelectImages th from (from + 20 - 1) # rest"
    if "parseInt_param (q_limit query) = Some 0"
    using w l [OF that] by simp
  ultimately show ?thesis
    using p l images_handler_echo by metis
qed

theorem zero_parameter_defaulted_witness:
  "parseInt_param (q_page (example_query (Some ''0'') (Some ''0'') None None)) = Some 0 \<and>
   parseInt_param (q_limit (example_query (Some ''0'') (Some ''0'') None None)) = Some 0 \<and>
   (\<exists>resp. snd (images_handler example_db example_now
                   (example_query (Some ''0'') (Some ''0'') None None)) = Inr resp \<and>
           page (pagination resp) = 1 \<and> limit (pagination resp) = 20)"
proof -
  let ?q = "example_query (Some ''0'') (Some ''0'') None None"
  have hp: "parseInt_param (q_page ?q) = Some 0"
    by (simp add: js_defs example_query_def)
  have hl: "parseInt_param (q_limit ?q) = Some 0"
    by (simp add: js_defs example_query_def)
  obtain resp where r: "snd (images_handler example_db example_now ?q) = Inr resp"
    using images_handler_nonempty [OF example_page_zero] by simp
  from zero_parameter_defaulted [of ?q example_db example_now] hp hl r
  have "page (pagination resp) = 1 \<and> limit (pagination resp) = 20"
    by blast
  with hp hl r show ?thesis by blast
qed

end
